theory Spec2Isabelle
  imports Main "HOL-Library.Multiset"
begin

section \<open>Data model (types.ts)\<close>

text \<open>
  Numbers are JavaScript numbers (IEEE doubles) in the source. Amounts and initial
  balances are whole rials, ids and time values are whole milliseconds: they are
  \<open>int\<close> here. Where the code does arithmetic on amounts, the model does the
  arithmetic of doubles on whole numbers (\<open>jsAdd\<close>, \<open>jsSub\<close> below), rounding
  included. A time value that is \<open>NaN\<close> is \<open>None\<close>.
\<close>

datatype TransactionType = Income | Expense

text \<open>\<open>TransactionCategory\<close>: the \<open>icon\<close> component is a rendering concern and is left out.\<close>

record TransactionCategory =
  cat_id :: int
  cat_name :: string

record ParsedTransaction =
  amount :: int
  ttype :: TransactionType
  bank :: "string option"
  date :: "string option"
  time :: "string option"

text \<open>\<open>interface Transaction extends ParsedTransaction\<close>.\<close>

record Transaction = ParsedTransaction +
  tx_id :: int
  accountId :: int
  category :: TransactionCategory
  tx_notes :: "string option"

record Account =
  acc_id :: int
  acc_name :: string
  initialBalance :: int

record Debt =
  debt_id :: int
  description :: string
  debt_amount :: int
  dueDate :: string
  isPaid :: bool

record MockSms =
  sms_id :: int
  sender :: string
  sms_text :: string

section \<open>Addition and subtraction of whole doubles\<close>







section \<open>Derived balances (App.tsx, accountsWithBalance)\<close>






section \<open>Application state (App.tsx, App)\<close>

text \<open>
  What \<open>parseBankSms\<close> hands back at run time. The declared type is
  \<open>ParsedTransaction\<close>, but the result is external data and \<open>handleParseSms\<close>
  tests it for missing fields, so every field may be absent here.
\<close>

record RawParsed =
  raw_amount :: "int option"
  raw_type :: "TransactionType option"
  raw_bank :: "string option"
  raw_date :: "string option"
  raw_time :: "string option"

text \<open>
  How the awaited parser call ends: it throws (\<open>Some m\<close> for an \<open>Error\<close> with message
  \<open>m\<close>, \<open>None\<close> for any other thrown value) or it resolves (\<open>None\<close> for \<open>null\<close>).
\<close>

datatype ParserOutcome = Rejected "string option" | Resolved "RawParsed option"

text \<open>The argument of \<open>handleSaveTransaction\<close>.\<close>

record SaveDetails =
  d_category :: TransactionCategory
  d_notes :: string
  d_accountId :: int

text \<open>
  The state variables of \<open>App\<close> that the pipeline reads or writes. \<open>inFlight\<close> is not a
  React state variable: it lists the messages whose parser call is still awaited (the
  suspended continuations of \<open>handleParseSms\<close>), oldest first.
\<close>

record AppState =
  accounts :: "Account list"
  transactions :: "Transaction list"
  categories :: "TransactionCategory list"
  smsInbox :: "MockSms list"
  isEditModalOpen :: bool
  isParsing :: bool
  parsingError :: "string option"
  transactionToEdit :: "ParsedTransaction option"
  smsToProcess :: "MockSms option"
  inFlight :: "MockSms list"

section \<open>Parsing an inbox message (App.tsx, handleParseSms)\<close>

text \<open>The two message literals of \<open>handleParseSms\<close> (Persian in the source), in English.\<close>

definition msg_incomplete :: string where
  "msg_incomplete = ''The data extracted from the SMS is incomplete.''"

definition msg_generic :: string where
  "msg_generic = ''Error while processing the SMS. Please try again.''"

text \<open>
  The completeness test \<open>!parsedData || !parsedData.amount || !parsedData.type\<close>
  and the candidate built when it passes. \<open>None\<close> is the \<open>throw\<close>. A number is falsy
  when it is \<open>0\<close>; the date falls back to \<open>today\<close> (the formatted current date) when
  it is absent or empty.
\<close>

definition validated :: "string \<Rightarrow> RawParsed option \<Rightarrow> ParsedTransaction option" where
  "validated today parsedData =
     (case parsedData of
        None \<Rightarrow> None
      | Some p \<Rightarrow>
          (case raw_amount p of
             None \<Rightarrow> None
           | Some a \<Rightarrow>
               if a = 0 then None
               else (case raw_type p of
                       None \<Rightarrow> None
                     | Some ty \<Rightarrow>
                         Some \<lparr>amount = a, ttype = ty, bank = raw_bank p,
                               date = Some (case raw_date p of
                                              None \<Rightarrow> today
                                            | Some d \<Rightarrow> if d = [] then today else d),
                               time = raw_time p\<rparr>)))"

text \<open>\<open>handleParseSms\<close> up to the \<open>await\<close>.\<close>

definition handleParseSms_begin :: "MockSms \<Rightarrow> AppState \<Rightarrow> AppState" where
  "handleParseSms_begin sms s =
     s\<lparr>isParsing := True, parsingError := None, smsToProcess := Some sms,
       inFlight := inFlight s @ [sms]\<rparr>"

text \<open>
  \<open>handleParseSms\<close> from the \<open>await\<close> on, once the parser call for \<open>sms\<close> has ended
  with \<open>outcome\<close>: the \<open>try\<close> body, the \<open>catch\<close> and the \<open>finally\<close>.
\<close>

definition handleParseSms_resume :: "string \<Rightarrow> MockSms \<Rightarrow> ParserOutcome \<Rightarrow> AppState \<Rightarrow> AppState" where
  "handleParseSms_resume today sms outcome s =
     (let s' = s\<lparr>inFlight := remove1 sms (inFlight s)\<rparr> in
      case outcome of
        Rejected e \<Rightarrow>
          s'\<lparr>parsingError := Some (case e of Some m \<Rightarrow> m | None \<Rightarrow> msg_generic),
             isParsing := False\<rparr>
      | Resolved parsedData \<Rightarrow>
          (case validated today parsedData of
             None \<Rightarrow> s'\<lparr>parsingError := Some msg_incomplete, isParsing := False\<rparr>
           | Some c \<Rightarrow>
               s'\<lparr>transactionToEdit := Some c, isEditModalOpen := True, isParsing := False\<rparr>))"

section \<open>Committing and abandoning (App.tsx, handleSaveTransaction, handleCloseEditModal)\<close>

text \<open>
  The sort key \<open>new Date(t.date || 0).getTime()\<close>. \<open>dateTime\<close> is the runtime's
  \<open>new Date(string).getTime()\<close>, a parameter: \<open>None\<close> is \<open>NaN\<close>, the time value of
  a string the runtime cannot read as a date. An absent or empty date is the time value
  \<open>0\<close>.
\<close>

definition dateKey :: "(string \<Rightarrow> int option) \<Rightarrow> Transaction \<Rightarrow> int option" where
  "dateKey dateTime t =
     (case date t of None \<Rightarrow> Some 0 | Some d \<Rightarrow> if d = [] then Some 0 else dateTime d)"


text \<open>
  The comparator \<open>(a, b) => key b - key a\<close>; the difference is \<open>NaN\<close> when either key
  is.
\<close>

definition compareDates :: "(string \<Rightarrow> int option) \<Rightarrow> Transaction \<Rightarrow> Transaction \<Rightarrow> int option" where
  "compareDates dateTime a b =
     (case dateKey dateTime b of
        None \<Rightarrow> None
      | Some kb \<Rightarrow> (case dateKey dateTime a of None \<Rightarrow> None | Some ka \<Rightarrow> Some (kb - ka)))"

text \<open>
  \<open>Array.prototype.sort\<close> with a comparator: a result \<open>NaN\<close> counts as \<open>0\<close>, and the
  sort is stable. With keys that are all numbers the result is the stable sort by
  descending key, whatever the algorithm. With a \<open>NaN\<close> among keys that differ the
  comparator is not consistent and the language leaves the order to the engine; the
  model then inserts each element, from the last to the first, in front of the first
  element it does not have to follow, which is the order V8 gives for the logs evaluated
  below.
\<close>

fun insertBy :: "('a \<Rightarrow> 'a \<Rightarrow> int option) \<Rightarrow> 'a \<Rightarrow> 'a list \<Rightarrow> 'a list" where
  "insertBy cmp x [] = [x]"
| "insertBy cmp x (y # ys) =
     (if (case cmp x y of None \<Rightarrow> 0 | Some v \<Rightarrow> v) \<le> 0 then x # y # ys
      else y # insertBy cmp x ys)"

definition sortByDate :: "(string \<Rightarrow> int option) \<Rightarrow> Transaction list \<Rightarrow> Transaction list" where
  "sortByDate dateTime ts = foldr (insertBy (compareDates dateTime)) ts []"

text \<open>The object \<open>newTransaction\<close>; \<open>now\<close> is the reading of \<open>Date.now()\<close>.\<close>

definition newTransaction :: "int \<Rightarrow> SaveDetails \<Rightarrow> ParsedTransaction \<Rightarrow> Transaction" where
  "newTransaction now details c =
     \<lparr>amount = amount c, ttype = ttype c, bank = bank c, date = date c, time = time c,
      tx_id = now, accountId = d_accountId details, category = d_category details,
      tx_notes = Some (d_notes details)\<rparr>"

definition handleSaveTransaction :: "(string \<Rightarrow> int option) \<Rightarrow> int \<Rightarrow> SaveDetails \<Rightarrow> AppState \<Rightarrow> AppState" where
  "handleSaveTransaction dateTime now details s =
     (case transactionToEdit s of
        None \<Rightarrow> s
      | Some c \<Rightarrow>
          if d_accountId details = 0 then s
          else s\<lparr>transactions := sortByDate dateTime (newTransaction now details c # transactions s),
                 smsInbox := (case smsToProcess s of
                                None \<Rightarrow> smsInbox s
                              | Some p \<Rightarrow> filter (\<lambda>x. sms_id x \<noteq> sms_id p) (smsInbox s)),
                 isEditModalOpen := False,
                 transactionToEdit := None,
                 smsToProcess := None,
                 parsingError := None\<rparr>)"

definition handleCloseEditModal :: "AppState \<Rightarrow> AppState" where
  "handleCloseEditModal s =
     s\<lparr>isEditModalOpen := False, transactionToEdit := None, smsToProcess := None,
       parsingError := None\<rparr>"

section \<open>What the rendered interface lets happen (App.tsx, App and InboxView)\<close>

text \<open>
  The button of an inbox message is disabled by
  \<open>isParsing && smsToProcess?.id === sms.id\<close>.
\<close>

definition parseDisabled :: "AppState \<Rightarrow> MockSms \<Rightarrow> bool" where
  "parseDisabled s sms =
     (isParsing s \<and> (case smsToProcess s of None \<Rightarrow> False | Some p \<Rightarrow> sms_id p = sms_id sms))"

text \<open>The modal, with its save and close buttons, is rendered by \<open>isEditModalOpen && transactionToEdit\<close>.\<close>

definition modalShown :: "AppState \<Rightarrow> bool" where
  "modalShown s = (isEditModalOpen s \<and> transactionToEdit s \<noteq> None)"

text \<open>
  The events: a click on the button of an inbox message, the end of an awaited parser
  call (with the date string the clock gives then), a click on save (with the reading of
  \<open>Date.now()\<close>) and a click on close. Every handler runs to completion on the state
  the last event left.
\<close>

datatype Event =
    ClickParse MockSms
  | ParserDone MockSms ParserOutcome string
  | ClickSave int SaveDetails
  | ClickClose

fun step :: "(string \<Rightarrow> int option) \<Rightarrow> AppState \<Rightarrow> Event \<Rightarrow> AppState" where
  "step dateTime s (ClickParse sms) =
     (if sms \<in> set (smsInbox s) \<and> \<not> parseDisabled s sms then handleParseSms_begin sms s else s)"
| "step dateTime s (ParserDone sms outcome today) =
     (if sms \<in> set (inFlight s) then handleParseSms_resume today sms outcome s else s)"
| "step dateTime s (ClickSave now details) =
     (if modalShown s then handleSaveTransaction dateTime now details s else s)"
| "step dateTime s ClickClose =
     (if modalShown s then handleCloseEditModal s else s)"

definition run :: "(string \<Rightarrow> int option) \<Rightarrow> AppState \<Rightarrow> Event list \<Rightarrow> AppState" where
  "run dateTime s es = foldl (step dateTime) s es"

text \<open>The transaction an event creates in a state, if it creates one.\<close>

fun committedBy :: "AppState \<Rightarrow> Event \<Rightarrow> Transaction list" where
  "committedBy s (ClickSave now details) =
     (case transactionToEdit s of
        None \<Rightarrow> []
      | Some c \<Rightarrow> if modalShown s \<and> d_accountId details \<noteq> 0 then [newTransaction now details c] else [])"
| "committedBy s e = []"

text \<open>The transactions a run creates, in commit order.\<close>

fun committed :: "(string \<Rightarrow> int option) \<Rightarrow> AppState \<Rightarrow> Event list \<Rightarrow> Transaction list" where
  "committed dateTime s [] = []"
| "committed dateTime s (e # es) = committedBy s e @ committed dateTime (step dateTime s e) es"

text \<open>The readings of \<open>Date.now()\<close> that the save clicks of a run carry, in order.\<close>

fun saveClocks :: "Event list \<Rightarrow> int list" where
  "saveClocks [] = []"
| "saveClocks (ClickSave now details # es) = now # saveClocks es"
| "saveClocks (e # es) = saveClocks es"

section \<open>Debts (App.tsx, DebtsView)\<close>

definition togglePaid :: "Debt list \<Rightarrow> int \<Rightarrow> Debt list" where
  "togglePaid debts i = map (\<lambda>d. if debt_id d = i then d\<lparr>isPaid := \<not> isPaid d\<rparr> else d) debts"

definition MS_PER_DAY :: int where
  "MS_PER_DAY = 1000 * 60 * 60 * 24"

text \<open>\<open>Math.ceil(a / b)\<close> for a positive \<open>b\<close>, on whole numbers.\<close>

definition ceilDiv :: "int \<Rightarrow> int \<Rightarrow> int" where
  "ceilDiv a b = - ((- a) div b)"

text \<open>
  The four results of \<open>getDueDateStatus\<close>: the text "paid", "\<open>n\<close> days left",
  "today!" and "\<open>n\<close> days past" (each with its colour).
\<close>

datatype DueStatus = Paid | DaysLeft int | Today | DaysPast int

text \<open>
  \<open>todayMidnight\<close> is the time value of \<open>today\<close> after \<open>setHours(0,0,0,0)\<close>, and
  \<open>dateTime\<close> the runtime's \<open>new Date(string).getTime()\<close>.
\<close>

definition getDueDateStatus :: "int \<Rightarrow> (string \<Rightarrow> int) \<Rightarrow> string \<Rightarrow> bool \<Rightarrow> DueStatus" where
  "getDueDateStatus todayMidnight dateTime due paid =
     (if paid then Paid
      else
        let diffTime = dateTime due - todayMidnight;
            diffDays = ceilDiv diffTime MS_PER_DAY
        in if diffDays > 0 then DaysLeft diffDays
           else if diffDays = 0 then Today
           else DaysPast (abs diffDays))"

text \<open>
  The runtime's clock arithmetic, for a time zone that is \<open>tz\<close> milliseconds ahead of
  UTC all year: \<open>setHours(0,0,0,0)\<close> moves a time value back to the last local midnight,
  and a date-only string \<open>YYYY-MM-DD\<close> (the value of a date input) is read as midnight
  UTC of that day, here given by its day number since 1 January 1970.
\<close>

definition localMidnight :: "int \<Rightarrow> int \<Rightarrow> int" where
  "localMidnight tz now = ((now + tz) div MS_PER_DAY) * MS_PER_DAY - tz"

definition localDay :: "int \<Rightarrow> int \<Rightarrow> int" where
  "localDay tz now = (now + tz) div MS_PER_DAY"

definition utcMidnight :: "int \<Rightarrow> int" where
  "utcMidnight day = day * MS_PER_DAY"

text \<open>The status the calendar gives for a debt due \<open>d\<close> days from today.\<close>

definition statusOfDays :: "int \<Rightarrow> DueStatus" where
  "statusOfDays d = (if d > 0 then DaysLeft d else if d = 0 then Today else DaysPast (abs d))"

section \<open>Concrete scenarios\<close>





definition ex_m1 :: MockSms where
  "ex_m1 = \<lparr>sms_id = 1, sender = ''Bank Mellat'', sms_text = ''withdrawal 550,000 1403/05/01''\<rparr>"

definition ex_m2 :: MockSms where
  "ex_m2 = \<lparr>sms_id = 2, sender = ''Bank Melli'', sms_text = ''deposit 25,000,000 1403/05/02''\<rparr>"

definition ex_r1 :: RawParsed where
  "ex_r1 = \<lparr>raw_amount = Some 550000, raw_type = Some Expense, raw_bank = Some ''Mellat'',
            raw_date = Some ''1403/05/01'', raw_time = Some ''18:45''\<rparr>"

definition ex_r2 :: RawParsed where
  "ex_r2 = \<lparr>raw_amount = Some 25000000, raw_type = Some Income, raw_bank = Some ''Melli'',
            raw_date = Some ''1403/05/02'', raw_time = None\<rparr>"

definition ex_salary :: TransactionCategory where
  "ex_salary = \<lparr>cat_id = 1, cat_name = ''salary''\<rparr>"

definition ex_details :: SaveDetails where
  "ex_details = \<lparr>d_category = ex_salary, d_notes = ''ok'', d_accountId = 1\<rparr>"

definition ex_state :: AppState where
  "ex_state = \<lparr>accounts = [\<lparr>acc_id = 1, acc_name = ''A'', initialBalance = 1000000\<rparr>],
                transactions = [], categories = [ex_salary],
                smsInbox = [ex_m1, ex_m2], isEditModalOpen = False, isParsing = False,
                parsingError = None, transactionToEdit = None, smsToProcess = None,
                inFlight = []\<rparr>"

definition ex_dateTime :: "string \<Rightarrow> int option" where
  "ex_dateTime d =
     (if d = ''1403/05/01'' then Some (- 17882467200000)
      else if d = ''1403/05/02'' then Some (- 17882380800000)
      else if d = ''2024-05-09'' then Some 1715212800000
      else if d = ''2024-05-10'' then Some 1715299200000
      else None)"

definition ex_candidate :: ParsedTransaction where
  "ex_candidate = \<lparr>amount = 550000, ttype = Expense, bank = Some ''Mellat'',
                   date = Some ''1403/05/01'', time = Some ''18:45''\<rparr>"

definition ex_old :: Transaction where
  "ex_old = \<lparr>amount = 100, ttype = Expense, bank = None, date = Some ''1403/05/02'',
             time = None, tx_id = 5, accountId = 1, category = ex_salary, tx_notes = None\<rparr>"

text \<open>A third message, and a parser result whose date string no runtime reads as a date.\<close>

definition ex_m3 :: MockSms where
  "ex_m3 = \<lparr>sms_id = 3, sender = ''Blubank'', sms_text = ''card purchase 1,200,000''\<rparr>"

definition ex_r3 :: RawParsed where
  "ex_r3 = \<lparr>raw_amount = Some 1200000, raw_type = Some Expense, raw_bank = Some ''Blubank'',
            raw_date = Some ''unknown'', raw_time = None\<rparr>"

text \<open>
  Tehran is 3 hours 30 minutes ahead of UTC. Noon there on 10 May 2024 (day 19853 since
  1 January 1970) is 08:30 UTC. The two date-only strings are read as midnight UTC.
\<close>

definition ex_tehran :: int where
  "ex_tehran = 12600000"

definition ex_noon :: int where
  "ex_noon = 19853 * MS_PER_DAY + 30600000"

definition ex_dueTime :: "string \<Rightarrow> int" where
  "ex_dueTime d =
     (if d = ''2024-05-09'' then utcMidnight 19852
      else if d = ''2024-05-10'' then utcMidnight 19853
      else 0)"

section \<open>Balances: proofs\<close>















section \<open>The transaction log: order\<close>

lemmas ex_defs = ex_m1_def ex_m2_def ex_m3_def ex_r1_def ex_r2_def ex_r3_def ex_salary_def
  ex_details_def ex_state_def ex_dateTime_def ex_old_def ex_candidate_def

lemmas model_defs = run_def handleParseSms_begin_def handleParseSms_resume_def
  handleSaveTransaction_def handleCloseEditModal_def parseDisabled_def modalShown_def
  validated_def newTransaction_def sortByDate_def compareDates_def dateKey_def

text \<open>Whatever the keys, the sort only rearranges the log.\<close>

lemma mset_insertBy: "mset (insertBy cmp x ys) = add_mset x (mset ys)"
  by (induction ys) simp_all

lemma mset_sortByDate: "mset (sortByDate dt ts) = mset ts"
  by (induction ts) (simp_all add: sortByDate_def mset_insertBy)


lemma sortByDate_length: "length (sortByDate dt ts) = length ts"
  using mset_sortByDate [of dt ts] by (rule mset_eq_length)





lemma step_transactions:
  "transactions (step dt s e)
     = (if committedBy s e = [] then transactions s
        else sortByDate dt (committedBy s e @ transactions s))"
proof (cases e)
  case (ClickParse sms)
  then show ?thesis by (simp add: handleParseSms_begin_def)
next
  case (ParserDone sms outcome today)
  then show ?thesis
    by (simp add: handleParseSms_resume_def Let_def split: ParserOutcome.splits option.splits)
next
  case (ClickSave now details)
  then show ?thesis
    by (simp add: handleSaveTransaction_def modalShown_def split: option.splits)
next
  case ClickClose
  then show ?thesis by (simp add: handleCloseEditModal_def)
qed

lemma run_Cons: "run dt s (e # es) = run dt (step dt s e) es"
  by (simp add: run_def)

lemma committedBy_short: "committedBy s e = [] \<or> (\<exists>t. committedBy s e = [t])"
  by (cases e) (simp_all split: option.splits)

text \<open>A run only adds what it commits, in whatever order the sort leaves the log.\<close>

lemma step_mset:
  "mset (transactions (step dt s e)) = mset (committedBy s e) + mset (transactions s)"
  by (simp add: step_transactions mset_sortByDate)

lemma run_mset:
  "mset (transactions (run dt s es)) = mset (committed dt s es) + mset (transactions s)"
proof (induction es arbitrary: s)
  case Nil
  show ?case by (simp add: run_def)
next
  case (Cons e es)
  show ?case by (simp add: run_Cons Cons.IH step_mset)
qed

lemma run_set:
  "set (transactions (run dt s es)) = set (committed dt s es) \<union> set (transactions s)"
proof -
  have "set_mset (mset (transactions (run dt s es)))
        = set_mset (mset (committed dt s es) + mset (transactions s))"
    by (simp only: run_mset)
  then show ?thesis by simp
qed




lemma resume_candidate:
  "transactionToEdit (handleParseSms_resume today sms outcome s) = transactionToEdit s
   \<or> (\<exists>r c. validated today r = Some c
            \<and> transactionToEdit (handleParseSms_resume today sms outcome s) = Some c)"
proof (cases outcome)
  case (Rejected e)
  then show ?thesis by (simp add: handleParseSms_resume_def Let_def)
next
  case (Resolved r)
  show ?thesis
  proof (cases "validated today r")
    case None
    with Resolved show ?thesis by (simp add: handleParseSms_resume_def Let_def)
  next
    case (Some c)
    with Resolved have "transactionToEdit (handleParseSms_resume today sms outcome s) = Some c"
      by (simp add: handleParseSms_resume_def Let_def)
    with Some show ?thesis by blast
  qed
qed








section \<open>The commit: what it checks\<close>

lemma handleSaveTransaction_noop:
  "transactionToEdit s = None \<or> d_accountId details = 0
   \<Longrightarrow> handleSaveTransaction dt now details s = s"
  by (auto simp: handleSaveTransaction_def split: option.splits)

lemma handleSaveTransaction_log:
  "transactionToEdit s = Some c \<Longrightarrow> d_accountId details \<noteq> 0
   \<Longrightarrow> transactions (handleSaveTransaction dt now details s)
       = sortByDate dt (newTransaction now details c # transactions s)"
  by (simp add: handleSaveTransaction_def)

text \<open>
  C2 (as the code has it). The commit refuses only when no candidate is staged or
  \<open>accountId\<close> is falsy (0), and then it changes nothing at all and reports nothing.
  Every other commit adds one transaction with the given account id and category,
  whether or not they are among the accounts and categories of the state.
\<close>

theorem C2_commit_guard:
  "(transactionToEdit s = None \<or> d_accountId details = 0
      \<longrightarrow> handleSaveTransaction dt now details s = s)
   \<and> (transactionToEdit s = Some c \<and> d_accountId details \<noteq> 0
      \<longrightarrow> transactions (handleSaveTransaction dt now details s)
            = sortByDate dt (newTransaction now details c # transactions s)
          \<and> length (transactions (handleSaveTransaction dt now details s))
            = length (transactions s) + 1
          \<and> accountId (newTransaction now details c) = d_accountId details
          \<and> category (newTransaction now details c) = d_category details)"
proof -
  have a: "transactionToEdit s = None \<or> d_accountId details = 0
           \<longrightarrow> handleSaveTransaction dt now details s = s"
    using handleSaveTransaction_noop by blast
  have b: "transactionToEdit s = Some c \<and> d_accountId details \<noteq> 0
      \<longrightarrow> transactions (handleSaveTransaction dt now details s)
            = sortByDate dt (newTransaction now details c # transactions s)"
    using handleSaveTransaction_log by blast
  have c: "length (sortByDate dt (newTransaction now details c # transactions s))
           = length (transactions s) + 1"
    by (simp add: sortByDate_length)
  have d: "accountId (newTransaction now details c) = d_accountId details
           \<and> category (newTransaction now details c) = d_category details"
    by (simp add: newTransaction_def)
  from a b c d show ?thesis by simp
qed

theorem C2_commit_guard_witness:
  "handleSaveTransaction ex_dateTime 1000 ex_details ex_state = ex_state
   \<and> map accountId (transactions (handleSaveTransaction ex_dateTime 1000 ex_details
        (ex_state\<lparr>transactionToEdit := Some ex_candidate, isEditModalOpen := True\<rparr>))) = [1]"
proof -
  have n: "transactionToEdit ex_state = None" by (simp add: ex_state_def)
  have st: "transactionToEdit (ex_state\<lparr>transactionToEdit := Some ex_candidate, isEditModalOpen := True\<rparr>)
            = Some ex_candidate" by simp
  have acc: "d_accountId ex_details \<noteq> 0" by (simp add: ex_details_def)
  have log: "transactions (ex_state\<lparr>transactionToEdit := Some ex_candidate, isEditModalOpen := True\<rparr>) = []"
    by (simp add: ex_state_def)
  from C2_commit_guard [of ex_state ex_details ex_dateTime 1000 ex_candidate] n
  have one: "handleSaveTransaction ex_dateTime 1000 ex_details ex_state = ex_state" by blast
  from C2_commit_guard [of "ex_state\<lparr>transactionToEdit := Some ex_candidate, isEditModalOpen := True\<rparr>"
      ex_details ex_dateTime 1000 ex_candidate] st acc
  have "transactions (handleSaveTransaction ex_dateTime 1000 ex_details
          (ex_state\<lparr>transactionToEdit := Some ex_candidate, isEditModalOpen := True\<rparr>))
        = sortByDate ex_dateTime (newTransaction 1000 ex_details ex_candidate
            # transactions (ex_state\<lparr>transactionToEdit := Some ex_candidate, isEditModalOpen := True\<rparr>))"
    by blast
  then have two: "map accountId (transactions (handleSaveTransaction ex_dateTime 1000 ex_details
          (ex_state\<lparr>transactionToEdit := Some ex_candidate, isEditModalOpen := True\<rparr>))) = [1]"
    by (simp add: log sortByDate_def newTransaction_def ex_details_def)
  from one two show ?thesis by simp
qed

text \<open>
  C2 as stated fails: with one account (id 1) and one category (id 1), a commit to the
  account id 999 under the category id 77 is accepted and lands in the log.
\<close>

theorem C2_unknown_account_counterexample:
  "map acc_id (accounts (ex_state\<lparr>transactionToEdit := Some ex_candidate, isEditModalOpen := True\<rparr>)) = [1]
   \<and> map cat_id (categories (ex_state\<lparr>transactionToEdit := Some ex_candidate, isEditModalOpen := True\<rparr>)) = [1]
   \<and> map (\<lambda>t. (accountId t, cat_id (category t)))
        (transactions (handleSaveTransaction ex_dateTime 1000
           \<lparr>d_category = \<lparr>cat_id = 77, cat_name = ''none''\<rparr>, d_notes = [], d_accountId = 999\<rparr>
           (ex_state\<lparr>transactionToEdit := Some ex_candidate, isEditModalOpen := True\<rparr>)))
      = [(999, 77)]
   \<and> transactions (ex_state\<lparr>transactionToEdit := Some ex_candidate, isEditModalOpen := True\<rparr>) = []"
  by code_simp

section \<open>Completeness of a candidate\<close>

lemma validated_Some:
  "validated today r = Some c
   \<Longrightarrow> amount c \<noteq> 0
       \<and> (\<exists>p. r = Some p \<and> raw_amount p = Some (amount c) \<and> raw_type p = Some (ttype c))"
  by (auto simp: validated_def split: option.splits if_splits)

lemma validated_zero: "raw_amount p = Some 0 \<Longrightarrow> validated today (Some p) = None"
  by (simp add: validated_def)

lemma validated_absent: "raw_amount p = None \<Longrightarrow> validated today (Some p) = None"
  by (simp add: validated_def)

text \<open>
  The commit does not look at the candidate again: completeness is established once,
  when the parser result becomes a candidate, and it holds for every candidate a run
  stages. A candidate has an amount and a type by its type; its amount is not 0.
\<close>

lemma step_candidate_complete:
  assumes "\<forall>c. transactionToEdit s = Some c \<longrightarrow> amount c \<noteq> 0"
  shows "\<forall>c. transactionToEdit (step dt s e) = Some c \<longrightarrow> amount c \<noteq> 0"
proof (cases e)
  case (ClickParse sms)
  with assms show ?thesis by (simp add: handleParseSms_begin_def)
next
  case (ParserDone sms outcome today)
  show ?thesis
  proof (cases "sms \<in> set (inFlight s)")
    case False
    with ParserDone assms show ?thesis by simp
  next
    case True
    with ParserDone have st: "step dt s e = handleParseSms_resume today sms outcome s" by simp
    from resume_candidate [of today sms outcome s] show ?thesis
    proof
      assume "transactionToEdit (handleParseSms_resume today sms outcome s) = transactionToEdit s"
      with assms st show ?thesis by simp
    next
      assume "\<exists>r c. validated today r = Some c
            \<and> transactionToEdit (handleParseSms_resume today sms outcome s) = Some c"
      then obtain r c where "validated today r = Some c"
        and "transactionToEdit (handleParseSms_resume today sms outcome s) = Some c" by blast
      then show ?thesis using validated_Some [of today r c] st by simp
    qed
  qed
next
  case (ClickSave now details)
  with assms show ?thesis
    by (auto simp: handleSaveTransaction_def split: option.splits if_splits)
next
  case ClickClose
  with assms show ?thesis by (simp add: handleCloseEditModal_def)
qed

lemma run_candidate_complete:
  "\<forall>c. transactionToEdit s = Some c \<longrightarrow> amount c \<noteq> 0
   \<Longrightarrow> \<forall>c. transactionToEdit (run dt s es) = Some c \<longrightarrow> amount c \<noteq> 0"
proof (induction es arbitrary: s)
  case Nil
  then show ?case by (simp add: run_def)
next
  case (Cons e es)
  from step_candidate_complete [OF Cons.prems]
  have "\<forall>c. transactionToEdit (run dt (step dt s e) es) = Some c \<longrightarrow> amount c \<noteq> 0"
    by (rule Cons.IH)
  then show ?case by (simp add: run_Cons)
qed

section \<open>A parser result with amount 0\<close>

text \<open>
  C10. A parser result whose amount is exactly 0 is handled as one whose amount is
  missing, whatever its other fields: the error message for incomplete data is set,
  parsing is over, and neither the staged candidate, the log nor the inbox changes; if
  no candidate was staged before, none is, and a commit after it does nothing.
\<close>

theorem C10_zero_amount_is_missing:
  assumes "raw_amount p = Some 0"
  shows "handleParseSms_resume today sms (Resolved (Some p)) s
           = handleParseSms_resume today sms (Resolved (Some (p\<lparr>raw_amount := None\<rparr>))) s
       \<and> handleParseSms_resume today sms (Resolved (Some p)) s
           = s\<lparr>inFlight := remove1 sms (inFlight s), parsingError := Some msg_incomplete,
               isParsing := False\<rparr>
       \<and> transactionToEdit (handleParseSms_resume today sms (Resolved (Some p)) s)
           = transactionToEdit s
       \<and> transactions (handleParseSms_resume today sms (Resolved (Some p)) s) = transactions s
       \<and> smsInbox (handleParseSms_resume today sms (Resolved (Some p)) s) = smsInbox s
       \<and> (transactionToEdit s = None
            \<longrightarrow> handleSaveTransaction dt now details
                   (handleParseSms_resume today sms (Resolved (Some p)) s)
                 = handleParseSms_resume today sms (Resolved (Some p)) s)"
proof -
  let ?s' = "handleParseSms_resume today sms (Resolved (Some p)) s"
  have fail: "?s' = s\<lparr>inFlight := remove1 sms (inFlight s), parsingError := Some msg_incomplete,
                      isParsing := False\<rparr>"
    using assms by (simp add: handleParseSms_resume_def validated_zero)
  have same: "handleParseSms_resume today sms (Resolved (Some (p\<lparr>raw_amount := None\<rparr>))) s
              = s\<lparr>inFlight := remove1 sms (inFlight s), parsingError := Some msg_incomplete,
                  isParsing := False\<rparr>"
    by (simp add: handleParseSms_resume_def validated_absent)
  have keep: "transactionToEdit ?s' = transactionToEdit s" "transactions ?s' = transactions s"
    "smsInbox ?s' = smsInbox s"
    by (simp_all add: fail)
  have noop: "transactionToEdit s = None \<longrightarrow> handleSaveTransaction dt now details ?s' = ?s'"
    using keep(1) handleSaveTransaction_noop [of ?s'] by simp
  from fail same keep noop show ?thesis by simp
qed

theorem C10_zero_amount_is_missing_witness:
  "handleParseSms_resume ''1403/05/03'' ex_m1 (Resolved (Some (ex_r1\<lparr>raw_amount := Some 0\<rparr>)))
     (handleParseSms_begin ex_m1 ex_state)
   = ex_state\<lparr>smsToProcess := Some ex_m1, parsingError := Some msg_incomplete\<rparr>"
proof -
  have z: "raw_amount (ex_r1\<lparr>raw_amount := Some 0\<rparr>) = Some 0" by simp
  note all = C10_zero_amount_is_missing [OF z, of "''1403/05/03''" ex_m1
      "handleParseSms_begin ex_m1 ex_state"]
  note second = conjunct1 [OF conjunct2 [OF all]]
  have "(handleParseSms_begin ex_m1 ex_state)
          \<lparr>inFlight := remove1 ex_m1 (inFlight (handleParseSms_begin ex_m1 ex_state)),
           parsingError := Some msg_incomplete, isParsing := False\<rparr>
        = ex_state\<lparr>smsToProcess := Some ex_m1, parsingError := Some msg_incomplete\<rparr>"
    by (simp add: handleParseSms_begin_def ex_state_def)
  with second show ?thesis by simp
qed

section \<open>Transaction ids\<close>

lemma committedBy_ids: "set (map tx_id (committedBy s e)) \<subseteq> set (saveClocks [e])"
  by (cases e) (auto simp: newTransaction_def split: option.splits)

lemma saveClocks_Cons: "saveClocks (e # es) = saveClocks [e] @ saveClocks es"
  by (cases e) simp_all

lemma saveClocks_single: "saveClocks [e] = [] \<or> (\<exists>n. saveClocks [e] = [n])"
  by (cases e) simp_all

lemma committed_ids_subset: "set (map tx_id (committed dt s es)) \<subseteq> set (saveClocks es)"
proof (induction es arbitrary: s)
  case Nil
  show ?case by simp
next
  case (Cons e es)
  have "set (map tx_id (committed dt s (e # es)))
        = set (map tx_id (committedBy s e)) \<union> set (map tx_id (committed dt (step dt s e) es))"
    by simp
  also have "\<dots> \<subseteq> set (saveClocks [e]) \<union> set (saveClocks es)"
    using committedBy_ids [of s e] Cons.IH [of "step dt s e"] by blast
  also have "\<dots> = set (saveClocks (e # es))"
    by (subst (2) saveClocks_Cons) simp
  finally show ?case .
qed

lemma committed_ids_increase:
  "sorted_wrt (<) (saveClocks es) \<Longrightarrow> sorted_wrt (<) (map tx_id (committed dt s es))"
proof (induction es arbitrary: s)
  case Nil
  show ?case by simp
next
  case (Cons e es)
  from Cons.prems have split: "sorted_wrt (<) (saveClocks [e] @ saveClocks es)"
    by (subst (asm) saveClocks_Cons)
  then have rest: "sorted_wrt (<) (saveClocks es)"
    and cross: "\<forall>x\<in>set (saveClocks [e]). \<forall>y\<in>set (saveClocks es). x < y"
    by (simp_all add: sorted_wrt_append)
  have tail: "sorted_wrt (<) (map tx_id (committed dt (step dt s e) es))"
    using rest by (rule Cons.IH)
  have head: "sorted_wrt (<) (map tx_id (committedBy s e))"
    using committedBy_short [of s e] by auto
  have between: "\<forall>x\<in>set (map tx_id (committedBy s e)).
                   \<forall>y\<in>set (map tx_id (committed dt (step dt s e) es)). x < y"
    using cross committedBy_ids [of s e] committed_ids_subset [of dt "step dt s e" es] by blast
  from head tail between show ?case
    by (simp add: sorted_wrt_append)
qed

lemma strictly_increasing_distinct: "sorted_wrt (<) (xs :: int list) \<Longrightarrow> distinct xs"
  by (induction xs) auto

lemma run_ids:
  "mset (map tx_id (transactions (run dt s es)))
     = mset (map tx_id (rev (committed dt s es) @ transactions s))"
proof -
  have "mset (map tx_id (transactions (run dt s es)))
        = image_mset tx_id (mset (transactions (run dt s es)))"
    by simp
  also have "\<dots> = image_mset tx_id (mset (committed dt s es) + mset (transactions s))"
    by (simp only: run_mset)
  also have "\<dots> = mset (map tx_id (rev (committed dt s es) @ transactions s))"
    by simp
  finally show ?thesis .
qed

text \<open>
  C9 (as the code has it). The id of a committed transaction is the reading of
  \<open>Date.now()\<close> at its commit. When the readings of the save clicks of a run strictly
  increase and lie above every id the log already holds (ids that are pairwise
  distinct), the ids of the committed transactions strictly increase in commit order,
  the ids of the log after the run are pairwise distinct, and the log holds what it held
  before and what the run committed.
\<close>

theorem C9_ids_follow_clock:
  assumes clocks: "sorted_wrt (<) (saveClocks es)"
    and old: "distinct (map tx_id (transactions s))"
    and fresh: "\<forall>t\<in>set (transactions s). \<forall>n\<in>set (saveClocks es). tx_id t < n"
  shows "sorted_wrt (<) (map tx_id (committed dt s es))
       \<and> distinct (map tx_id (transactions (run dt s es)))
       \<and> set (transactions (run dt s es)) = set (transactions s) \<union> set (committed dt s es)"
proof -
  let ?C = "committed dt s es"
  have inc: "sorted_wrt (<) (map tx_id ?C)"
    using clocks by (rule committed_ids_increase)
  then have new: "distinct (map tx_id ?C)"
    by (rule strictly_increasing_distinct)
  have apart: "set (map tx_id ?C) \<inter> set (map tx_id (transactions s)) = {}"
  proof -
    have "\<forall>x\<in>set (map tx_id (transactions s)). \<forall>n\<in>set (map tx_id ?C). x < n"
      using fresh committed_ids_subset [of dt s es] by auto
    then show ?thesis by fastforce
  qed
  have all: "distinct (map tx_id (rev ?C @ transactions s))"
    using new old apart by (simp add: rev_map [symmetric])
  have ids: "distinct (map tx_id (transactions (run dt s es)))"
    using all mset_eq_imp_distinct_iff [OF run_ids [of dt s es]] by blast
  have content: "set (transactions (run dt s es)) = set (transactions s) \<union> set ?C"
    by (auto simp: run_set)
  from inc ids content show ?thesis by blast
qed

theorem C9_ids_follow_clock_witness:
  "map tx_id (committed ex_dateTime ex_state
      [ClickParse ex_m1, ParserDone ex_m1 (Resolved (Some ex_r1)) ''1403/05/03'',
       ClickSave 1000 ex_details,
       ClickParse ex_m2, ParserDone ex_m2 (Resolved (Some ex_r2)) ''1403/05/03'',
       ClickSave 2000 ex_details]) = [1000, 2000]
   \<and> distinct (map tx_id (transactions (run ex_dateTime ex_state
      [ClickParse ex_m1, ParserDone ex_m1 (Resolved (Some ex_r1)) ''1403/05/03'',
       ClickSave 1000 ex_details,
       ClickParse ex_m2, ParserDone ex_m2 (Resolved (Some ex_r2)) ''1403/05/03'',
       ClickSave 2000 ex_details])))"
proof -
  let ?es = "[ClickParse ex_m1, ParserDone ex_m1 (Resolved (Some ex_r1)) ''1403/05/03'',
       ClickSave 1000 ex_details,
       ClickParse ex_m2, ParserDone ex_m2 (Resolved (Some ex_r2)) ''1403/05/03'',
       ClickSave 2000 ex_details]"
  have clocks: "sorted_wrt (<) (saveClocks ?es)" by simp
  have old: "distinct (map tx_id (transactions ex_state))" by (simp add: ex_state_def)
  have fresh: "\<forall>t\<in>set (transactions ex_state). \<forall>n\<in>set (saveClocks ?es). tx_id t < n"
    by (simp add: ex_state_def)
  have ids: "map tx_id (committed ex_dateTime ex_state ?es) = [1000, 2000]"
    by code_simp
  from C9_ids_follow_clock [OF clocks old fresh, of ex_dateTime] ids show ?thesis by blast
qed

text \<open>
  C9 as stated fails: two commits that read the same millisecond from the clock get the
  same id.
\<close>

theorem C9_same_clock_counterexample:
  "map tx_id (transactions (run ex_dateTime ex_state
      [ClickParse ex_m1, ParserDone ex_m1 (Resolved (Some ex_r1)) ''1403/05/03'',
       ClickSave 1000 ex_details,
       ClickParse ex_m2, ParserDone ex_m2 (Resolved (Some ex_r2)) ''1403/05/03'',
       ClickSave 1000 ex_details])) = [1000, 1000]"
  by code_simp

section \<open>Starting a parse while another is active\<close>

lemma handleParseSms_begin_fields:
  "inFlight (handleParseSms_begin sms s) = inFlight s @ [sms]"
  "smsToProcess (handleParseSms_begin sms s) = Some sms"
  "isParsing (handleParseSms_begin sms s)"
  "transactionToEdit (handleParseSms_begin sms s) = transactionToEdit s"
  "transactions (handleParseSms_begin sms s) = transactions s"
  "smsInbox (handleParseSms_begin sms s) = smsInbox s"
  by (simp_all add: handleParseSms_begin_def)

text \<open>
  C4 (as the code has it). \<open>handleParseSms\<close> has no guard of its own: every call
  starts one more parser call and selects its message. The inbox view disables one
  button only, and only while \<open>isParsing\<close> holds: the button of a message with the id
  of the selected message; a click on it changes nothing. A click on any other inbox
  message, and any click once \<open>isParsing\<close> is false (a candidate may be under review
  then), starts a further parser call and replaces the selected message; the staged
  candidate, the log and the inbox are as before at that moment.
\<close>

theorem C4_parse_gate:
  "parseDisabled s sms = (isParsing s \<and> (\<exists>p. smsToProcess s = Some p \<and> sms_id p = sms_id sms))
   \<and> (parseDisabled s sms \<longrightarrow> step dt s (ClickParse sms) = s)
   \<and> (sms \<in> set (smsInbox s) \<and> \<not> parseDisabled s sms
        \<longrightarrow> step dt s (ClickParse sms) = handleParseSms_begin sms s)
   \<and> inFlight (handleParseSms_begin sms s) = inFlight s @ [sms]
   \<and> smsToProcess (handleParseSms_begin sms s) = Some sms
   \<and> transactionToEdit (handleParseSms_begin sms s) = transactionToEdit s
   \<and> transactions (handleParseSms_begin sms s) = transactions s
   \<and> smsInbox (handleParseSms_begin sms s) = smsInbox s"
proof -
  have gate: "parseDisabled s sms
              = (isParsing s \<and> (\<exists>p. smsToProcess s = Some p \<and> sms_id p = sms_id sms))"
    by (cases "smsToProcess s") (simp_all add: parseDisabled_def)
  have blocked: "parseDisabled s sms \<longrightarrow> step dt s (ClickParse sms) = s" by simp
  have free: "sms \<in> set (smsInbox s) \<and> \<not> parseDisabled s sms
              \<longrightarrow> step dt s (ClickParse sms) = handleParseSms_begin sms s" by simp
  from gate blocked free show ?thesis
    by (simp only: handleParseSms_begin_fields simp_thms)
qed

theorem C4_parse_gate_witness:
  "step ex_dateTime (handleParseSms_begin ex_m1 ex_state) (ClickParse ex_m1)
     = handleParseSms_begin ex_m1 ex_state
   \<and> inFlight (step ex_dateTime (handleParseSms_begin ex_m1 ex_state) (ClickParse ex_m2))
     = [ex_m1, ex_m2]"
proof -
  let ?s = "handleParseSms_begin ex_m1 ex_state"
  have dis: "parseDisabled ?s ex_m1"
    by (simp add: parseDisabled_def handleParseSms_begin_def)
  have en: "ex_m2 \<in> set (smsInbox ?s) \<and> \<not> parseDisabled ?s ex_m2"
    by (simp add: parseDisabled_def handleParseSms_begin_def ex_state_def ex_m1_def ex_m2_def)
  note a = C4_parse_gate [of ?s ex_m1 ex_dateTime]
  note b = C4_parse_gate [of ?s ex_m2 ex_dateTime]
  have one: "step ex_dateTime ?s (ClickParse ex_m1) = ?s" using a dis by blast
  have two: "step ex_dateTime ?s (ClickParse ex_m2) = handleParseSms_begin ex_m2 ?s"
    using b en by blast
  have "inFlight (handleParseSms_begin ex_m2 ?s) = [ex_m1, ex_m2]"
    by (simp add: handleParseSms_begin_def ex_state_def)
  with one two show ?thesis by simp
qed

text \<open>
  C4 as stated fails. While the first message is being parsed, a click on the second one
  starts a second parser call: two messages are in flight. Each result then stages a
  candidate, the second replacing the first. Carried on, the run commits the first
  message twice: its commit removes the second message from the inbox, so the first one
  stays there and is parsed and committed again.
\<close>

theorem C4_second_parse_counterexample:
  "inFlight (run ex_dateTime ex_state [ClickParse ex_m1, ClickParse ex_m2]) = [ex_m1, ex_m2]
   \<and> transactionToEdit (run ex_dateTime ex_state
        [ClickParse ex_m1, ClickParse ex_m2,
         ParserDone ex_m1 (Resolved (Some ex_r1)) ''1403/05/03'']) = Some ex_candidate
   \<and> transactionToEdit (run ex_dateTime ex_state
        [ClickParse ex_m1, ClickParse ex_m2,
         ParserDone ex_m1 (Resolved (Some ex_r1)) ''1403/05/03'',
         ParserDone ex_m2 (Resolved (Some ex_r2)) ''1403/05/03''])
      = Some \<lparr>amount = 25000000, ttype = Income, bank = Some ''Melli'',
              date = Some ''1403/05/02'', time = None\<rparr>
   \<and> map amount (transactions (run ex_dateTime ex_state
        [ClickParse ex_m1, ClickParse ex_m2,
         ParserDone ex_m1 (Resolved (Some ex_r1)) ''1403/05/03'', ClickSave 1000 ex_details,
         ParserDone ex_m2 (Resolved (Some ex_r2)) ''1403/05/03'', ClickClose,
         ClickParse ex_m1,
         ParserDone ex_m1 (Resolved (Some ex_r1)) ''1403/05/03'', ClickSave 2000 ex_details]))
      = [550000, 550000]"
  by code_simp

section \<open>A parser result that arrives after the process was abandoned\<close>

lemma resume_keeps:
  "transactions (handleParseSms_resume today sms outcome s) = transactions s"
  "smsInbox (handleParseSms_resume today sms outcome s) = smsInbox s"
  "smsToProcess (handleParseSms_resume today sms outcome s) = smsToProcess s"
  "isParsing (handleParseSms_resume today sms outcome s) = False"
  by (simp_all add: handleParseSms_resume_def Let_def split: ParserOutcome.splits option.splits)

lemma close_fields:
  "transactions (handleCloseEditModal s) = transactions s"
  "smsInbox (handleCloseEditModal s) = smsInbox s"
  "smsToProcess (handleCloseEditModal s) = None"
  "transactionToEdit (handleCloseEditModal s) = None"
  "isEditModalOpen (handleCloseEditModal s) = False"
  "parsingError (handleCloseEditModal s) = None"
  "inFlight (handleCloseEditModal s) = inFlight s"
  "isParsing (handleCloseEditModal s) = isParsing s"
  by (simp_all add: handleCloseEditModal_def)

lemma resume_complete:
  "validated today r = Some c
   \<Longrightarrow> transactionToEdit (handleParseSms_resume today sms (Resolved r) s) = Some c
       \<and> isEditModalOpen (handleParseSms_resume today sms (Resolved r) s)
       \<and> parsingError (handleParseSms_resume today sms (Resolved r) s) = parsingError s"
  by (simp add: handleParseSms_resume_def Let_def)

lemma resume_incomplete:
  "validated today r = None
   \<Longrightarrow> transactionToEdit (handleParseSms_resume today sms (Resolved r) s) = transactionToEdit s
       \<and> isEditModalOpen (handleParseSms_resume today sms (Resolved r) s) = isEditModalOpen s
       \<and> parsingError (handleParseSms_resume today sms (Resolved r) s) = Some msg_incomplete"
  by (simp add: handleParseSms_resume_def Let_def)

lemma resume_rejected:
  "transactionToEdit (handleParseSms_resume today sms (Rejected e) s) = transactionToEdit s
   \<and> isEditModalOpen (handleParseSms_resume today sms (Rejected e) s) = isEditModalOpen s
   \<and> parsingError (handleParseSms_resume today sms (Rejected e) s)
       = Some (case e of Some m \<Rightarrow> m | None \<Rightarrow> msg_generic)"
  by (simp add: handleParseSms_resume_def Let_def)

text \<open>
  C5 (as the code has it). \<open>handleCloseEditModal\<close> cancels nothing, and the continuation
  of \<open>handleParseSms\<close> does not look at which message is selected. A parser result that
  arrives after the process was abandoned is applied like any other: a complete result
  stages its candidate and opens the review, with no message selected; an incomplete
  result or a rejection sets the error message and stages nothing. The result itself
  creates no transaction and leaves the inbox alone, and parsing is over after it.
\<close>

theorem C5_late_result_applied:
  "transactions (handleParseSms_resume today sms outcome (handleCloseEditModal s)) = transactions s
   \<and> smsInbox (handleParseSms_resume today sms outcome (handleCloseEditModal s)) = smsInbox s
   \<and> smsToProcess (handleParseSms_resume today sms outcome (handleCloseEditModal s)) = None
   \<and> isParsing (handleParseSms_resume today sms outcome (handleCloseEditModal s)) = False
   \<and> (validated today r = Some c
        \<longrightarrow> transactionToEdit (handleParseSms_resume today sms (Resolved r) (handleCloseEditModal s))
              = Some c
            \<and> isEditModalOpen (handleParseSms_resume today sms (Resolved r) (handleCloseEditModal s)))
   \<and> (validated today r = None
        \<longrightarrow> transactionToEdit (handleParseSms_resume today sms (Resolved r) (handleCloseEditModal s))
              = None
            \<and> parsingError (handleParseSms_resume today sms (Resolved r) (handleCloseEditModal s))
              = Some msg_incomplete)
   \<and> transactionToEdit (handleParseSms_resume today sms (Rejected e) (handleCloseEditModal s)) = None
   \<and> parsingError (handleParseSms_resume today sms (Rejected e) (handleCloseEditModal s))
       = Some (case e of Some m \<Rightarrow> m | None \<Rightarrow> msg_generic)"
proof -
  let ?a = "handleCloseEditModal s"
  have keep: "transactions (handleParseSms_resume today sms outcome ?a) = transactions s"
    "smsInbox (handleParseSms_resume today sms outcome ?a) = smsInbox s"
    "smsToProcess (handleParseSms_resume today sms outcome ?a) = None"
    "isParsing (handleParseSms_resume today sms outcome ?a) = False"
    by (simp_all add: resume_keeps close_fields)
  have ok: "validated today r = Some c
        \<longrightarrow> transactionToEdit (handleParseSms_resume today sms (Resolved r) ?a) = Some c
            \<and> isEditModalOpen (handleParseSms_resume today sms (Resolved r) ?a)"
    using resume_complete [of today r c sms ?a] by blast
  have bad: "validated today r = None
        \<longrightarrow> transactionToEdit (handleParseSms_resume today sms (Resolved r) ?a) = None
            \<and> parsingError (handleParseSms_resume today sms (Resolved r) ?a) = Some msg_incomplete"
    using resume_incomplete [of today r sms ?a] by (simp add: close_fields)
  have rej: "transactionToEdit (handleParseSms_resume today sms (Rejected e) ?a) = None"
    "parsingError (handleParseSms_resume today sms (Rejected e) ?a)
       = Some (case e of Some m \<Rightarrow> m | None \<Rightarrow> msg_generic)"
    using resume_rejected [of today sms e ?a] by (simp_all add: close_fields)
  from keep ok bad rej show ?thesis by blast
qed

theorem C5_late_result_applied_witness:
  "transactionToEdit (handleParseSms_resume ''1403/05/03'' ex_m1 (Resolved (Some ex_r1))
      (handleCloseEditModal (handleParseSms_begin ex_m1 ex_state))) = Some ex_candidate
   \<and> transactions (handleParseSms_resume ''1403/05/03'' ex_m1 (Resolved (Some ex_r1))
      (handleCloseEditModal (handleParseSms_begin ex_m1 ex_state))) = []"
proof -
  have v: "validated ''1403/05/03'' (Some ex_r1) = Some ex_candidate"
    by (simp add: validated_def ex_r1_def ex_candidate_def)
  have e: "transactions (handleParseSms_begin ex_m1 ex_state) = []"
    by (simp add: handleParseSms_begin_def ex_state_def)
  from C5_late_result_applied [of "''1403/05/03''" ex_m1 "Resolved (Some ex_r1)"
      "handleParseSms_begin ex_m1 ex_state" "Some ex_r1" ex_candidate] v e
  show ?thesis by simp
qed

text \<open>
  C5 as stated fails. Abandoning while the parse of a message is in flight does not make
  its result a no-op: when the parser resolves, the candidate is staged and the review
  opens, and a save then creates a transaction (and removes nothing from the inbox).
  The second run reaches the same through the interface alone: the review of the first
  message is closed while the second is still being parsed.
\<close>

theorem C5_late_result_counterexample:
  "transactionToEdit (handleParseSms_resume ''1403/05/03'' ex_m1 (Resolved (Some ex_r1))
      (handleCloseEditModal (handleParseSms_begin ex_m1 ex_state))) = Some ex_candidate
   \<and> isEditModalOpen (handleParseSms_resume ''1403/05/03'' ex_m1 (Resolved (Some ex_r1))
      (handleCloseEditModal (handleParseSms_begin ex_m1 ex_state)))
   \<and> map amount (transactions (handleSaveTransaction ex_dateTime 1000 ex_details
       (handleParseSms_resume ''1403/05/03'' ex_m1 (Resolved (Some ex_r1))
         (handleCloseEditModal (handleParseSms_begin ex_m1 ex_state))))) = [550000]
   \<and> modalShown (run ex_dateTime ex_state
        [ClickParse ex_m1, ClickParse ex_m2,
         ParserDone ex_m1 (Resolved (Some ex_r1)) ''1403/05/03'', ClickClose,
         ParserDone ex_m2 (Resolved (Some ex_r2)) ''1403/05/03''])
   \<and> map amount (transactions (run ex_dateTime ex_state
        [ClickParse ex_m1, ClickParse ex_m2,
         ParserDone ex_m1 (Resolved (Some ex_r1)) ''1403/05/03'', ClickClose,
         ParserDone ex_m2 (Resolved (Some ex_r2)) ''1403/05/03'',
         ClickSave 1000 ex_details])) = [25000000]
   \<and> smsInbox (run ex_dateTime ex_state
        [ClickParse ex_m1, ClickParse ex_m2,
         ParserDone ex_m1 (Resolved (Some ex_r1)) ''1403/05/03'', ClickClose,
         ParserDone ex_m2 (Resolved (Some ex_r2)) ''1403/05/03'',
         ClickSave 1000 ex_details]) = [ex_m1, ex_m2]"
  by code_simp

section \<open>Removing the processed message from the inbox\<close>

text \<open>
  Only an event that commits changes the inbox, and it removes the messages with the id
  of the message selected at that moment.
\<close>

lemma step_smsInbox:
  "smsInbox (step dt s e)
     = (if committedBy s e = [] then smsInbox s
        else (case smsToProcess s of
                None \<Rightarrow> smsInbox s
              | Some p \<Rightarrow> filter (\<lambda>x. sms_id x \<noteq> sms_id p) (smsInbox s)))"
proof (cases e)
  case (ClickParse sms)
  then show ?thesis by (simp add: handleParseSms_begin_def)
next
  case (ParserDone sms outcome today)
  then show ?thesis by (simp add: resume_keeps)
next
  case (ClickSave now details)
  then show ?thesis
    by (simp add: handleSaveTransaction_def modalShown_def split: option.splits)
next
  case ClickClose
  then show ?thesis by (simp add: handleCloseEditModal_def)
qed

text \<open>
  With one message at a time the inbox behaves as intended: parse, review and save
  remove every inbox message with the id of the parsed message and add its transaction;
  a failed parse, and a review that is closed, leave inbox and log as they were.
\<close>

lemma one_at_a_time_commit:
  assumes "sms \<in> set (smsInbox s)" and "\<not> isParsing s"
    and "validated today r = Some c" and "d_accountId details \<noteq> 0"
  shows "smsInbox (run dt s [ClickParse sms, ParserDone sms (Resolved r) today, ClickSave now details])
           = filter (\<lambda>x. sms_id x \<noteq> sms_id sms) (smsInbox s)
       \<and> transactions (run dt s [ClickParse sms, ParserDone sms (Resolved r) today, ClickSave now details])
           = sortByDate dt (newTransaction now details c # transactions s)"
  using assms
  by (simp add: run_def parseDisabled_def handleParseSms_begin_def handleParseSms_resume_def
      Let_def modalShown_def handleSaveTransaction_def)

lemma one_at_a_time_failure:
  assumes "sms \<in> set (smsInbox s)" and "\<not> isParsing s"
    and "outcome = Rejected e \<or> (outcome = Resolved r \<and> validated today r = None)"
  shows "smsInbox (run dt s [ClickParse sms, ParserDone sms outcome today]) = smsInbox s
       \<and> transactions (run dt s [ClickParse sms, ParserDone sms outcome today]) = transactions s"
  using assms
  by (auto simp: run_def parseDisabled_def handleParseSms_begin_def resume_keeps)

lemma one_at_a_time_abort:
  assumes "sms \<in> set (smsInbox s)" and "\<not> isParsing s"
  shows "smsInbox (run dt s [ClickParse sms, ParserDone sms outcome today, ClickClose]) = smsInbox s
       \<and> transactions (run dt s [ClickParse sms, ParserDone sms outcome today, ClickClose])
           = transactions s"
  using assms
  by (simp add: run_def parseDisabled_def handleParseSms_begin_def resume_keeps close_fields)

text \<open>
  C6 fails on the code. The second message is clicked while the first is being parsed;
  the first result is reviewed and saved. The commit removes the second message, whose
  parser call has not ended and of which no transaction exists, and the first message,
  whose transaction is now in the log, stays in the inbox.
\<close>

theorem C6_wrong_message_removed:
  "smsInbox (run ex_dateTime ex_state
      [ClickParse ex_m1, ClickParse ex_m2,
       ParserDone ex_m1 (Resolved (Some ex_r1)) ''1403/05/03'', ClickSave 1000 ex_details])
     = [ex_m1]
   \<and> transactions (run ex_dateTime ex_state
      [ClickParse ex_m1, ClickParse ex_m2,
       ParserDone ex_m1 (Resolved (Some ex_r1)) ''1403/05/03'', ClickSave 1000 ex_details])
     = [newTransaction 1000 ex_details ex_candidate]
   \<and> inFlight (run ex_dateTime ex_state
      [ClickParse ex_m1, ClickParse ex_m2,
       ParserDone ex_m1 (Resolved (Some ex_r1)) ''1403/05/03'', ClickSave 1000 ex_details])
     = [ex_m2]
   \<and> validated ''1403/05/03'' (Some ex_r1) = Some ex_candidate"
  by code_simp

section \<open>The status of a debt\<close>

lemma getDueDateStatus_paid: "getDueDateStatus todayMidnight dateTime due True = Paid"
  by (simp add: getDueDateStatus_def)

lemma getDueDateStatus_unpaid:
  "getDueDateStatus todayMidnight dateTime due False
     = statusOfDays (ceilDiv (dateTime due - todayMidnight) MS_PER_DAY)"
  by (simp add: getDueDateStatus_def statusOfDays_def Let_def)

lemma ceilDiv_days:
  assumes "- MS_PER_DAY < r" and "r < MS_PER_DAY"
  shows "ceilDiv (d * MS_PER_DAY + r) MS_PER_DAY = d + (if 0 < r then 1 else 0)"
proof -
  have pos: "0 < MS_PER_DAY" by (simp add: MS_PER_DAY_def)
  have "- (d * MS_PER_DAY + r) = - r + (- d) * MS_PER_DAY"
    by (simp add: algebra_simps)
  then have "(- (d * MS_PER_DAY + r)) div MS_PER_DAY = (- r + (- d) * MS_PER_DAY) div MS_PER_DAY"
    by (rule arg_cong)
  also have "\<dots> = (- d) + (- r) div MS_PER_DAY"
    using pos by (intro div_mult_self1) simp
  finally have eq: "ceilDiv (d * MS_PER_DAY + r) MS_PER_DAY = d - (- r) div MS_PER_DAY"
    by (simp add: ceilDiv_def)
  show ?thesis
  proof (cases "0 < r")
    case True
    then have "(- r) div MS_PER_DAY = - 1"
      using assms by (intro int_div_pos_eq [where r = "MS_PER_DAY - r"]) simp_all
    then show ?thesis using True eq by simp
  next
    case False
    then have "(- r) div MS_PER_DAY = 0"
      using assms by simp
    then show ?thesis using False eq by simp
  qed
qed

text \<open>
  What the code shows for a debt due on the calendar day \<open>day\<close>, in a time zone
  \<open>tz\<close> milliseconds ahead of UTC (less than a day either way): the status of the
  calendar difference to the local day, one day too far in the future when the zone is
  east of Greenwich.
\<close>

lemma getDueDateStatus_by_zone:
  assumes "dateTime due = utcMidnight day" and "- MS_PER_DAY < tz" and "tz < MS_PER_DAY"
  shows "getDueDateStatus (localMidnight tz now) dateTime due False
           = statusOfDays (day - localDay tz now + (if 0 < tz then 1 else 0))"
proof -
  have "dateTime due - localMidnight tz now = (day - localDay tz now) * MS_PER_DAY + tz"
    by (simp add: assms(1) utcMidnight_def localMidnight_def localDay_def algebra_simps)
  then show ?thesis
    using ceilDiv_days [OF assms(2,3), of "day - localDay tz now"]
    by (simp add: getDueDateStatus_unpaid)
qed

lemma togglePaid_paid:
  "map (\<lambda>d. getDueDateStatus todayMidnight dateTime (dueDate d) (isPaid d))
       (togglePaid [d\<lparr>isPaid := False\<rparr>] (debt_id d)) = [Paid]"
  by (simp add: togglePaid_def getDueDateStatus_def)

text \<open>
  C8 fails on the code. On 10 May 2024 at noon in Tehran (UTC+03:30), the debt due on
  9 May 2024, yesterday, and not paid is shown as due today, not as one day past: the
  due date is read as midnight UTC, which is 03:30 local time, 20.5 hours before the
  local midnight of today, and the ceiling of the quotient is 0. The calendar difference
  is -1 day; after \<open>togglePaid\<close> the debt is shown as paid.
\<close>

theorem C8_due_yesterday_shown_today:
  "localDay ex_tehran ex_noon = 19853
   \<and> ex_dueTime ''2024-05-09'' = utcMidnight 19852
   \<and> getDueDateStatus (localMidnight ex_tehran ex_noon) ex_dueTime ''2024-05-09'' False = Today
   \<and> statusOfDays (19852 - localDay ex_tehran ex_noon) = DaysPast 1
   \<and> getDueDateStatus (localMidnight ex_tehran ex_noon) ex_dueTime ''2024-05-10'' False = DaysLeft 1
   \<and> getDueDateStatus (localMidnight ex_tehran ex_noon) ex_dueTime ''2024-05-09'' True = Paid"
  by (simp add: ex_tehran_def ex_noon_def ex_dueTime_def localDay_def localMidnight_def
      utcMidnight_def MS_PER_DAY_def getDueDateStatus_def ceilDiv_def statusOfDays_def Let_def)

end
